theory Spec2Isabelle
  imports Main "HOL-Library.Sublist" "HOL-Library.Multiset"
begin

section \<open>JavaScript strings, values and objects\<close>

text \<open>
  A JavaScript string is modelled as a \<open>string\<close>: one \<open>char\<close> stands for one code unit.
  The three messages of the source hold the letters U+00E2 and U+00E3, written here by
  their code.

  The class keeps its data in plain objects. The own properties of an object that is only
  read and written by key are a map; those of an object whose key order is observed
  (\<open>Object.keys\<close>) are an association list in that order. Every such object has
  \<open>Object.prototype\<close> as its prototype, and the two places where a plain object is not a
  dictionary are part of the model:
  \<^item> a read \<open>obj[k]\<close> of a key that is not an own property follows the prototype chain, so
    it gives the member \<open>k\<close> of \<open>Object.prototype\<close> when there is one (\<open>constructor\<close>,
    \<open>toString\<close>, \<open>__proto__\<close> and so on) and \<open>undefined\<close> otherwise;
  \<^item> a write \<open>obj['__proto__'] = v\<close> of a string or a boolean to an object without an own
    property of that name runs the setter of \<open>Object.prototype\<close>, which ignores such a
    value: the object stays as it is.
\<close>

datatype js_error = TypeError

text \<open>
  The result of a read \<open>obj[k]\<close> is \<open>undefined\<close>, the value of an own property, or a member
  of \<open>Object.prototype\<close>. Such a member is a function or an object: it is truthy, it has no
  \<open>slice\<close>, and the model keeps the string it converts to. A \<open>prototype\<close> gives the members
  of \<open>Object.prototype\<close> by name, each with that string.
\<close>

datatype 'a js_value = Undefined | Own 'a | Inherited string

type_synonym prototype = "string \<rightharpoonup> string"

definition get :: "prototype \<Rightarrow> (string \<rightharpoonup> 'a) \<Rightarrow> string \<Rightarrow> 'a js_value" where
  \<comment> \<open>\<open>obj[k]\<close>\<close>
  "get P obj k =
     (case obj k of
        Some v \<Rightarrow> Own v
      | None \<Rightarrow> (case P k of Some t \<Rightarrow> Inherited t | None \<Rightarrow> Undefined))"

definition put :: "(string \<rightharpoonup> 'a) \<Rightarrow> string \<Rightarrow> 'a \<Rightarrow> (string \<rightharpoonup> 'a)" where
  \<comment> \<open>\<open>obj[k] = v\<close> for a string or a boolean \<open>v\<close>\<close>
  "put obj k v = (if k = ''__proto__'' \<and> obj k = None then obj else obj(k \<mapsto> v))"

fun update :: "(string \<times> 'v) list \<Rightarrow> string \<Rightarrow> 'v \<Rightarrow> (string \<times> 'v) list" where
  \<comment> \<open>an own property is created or overwritten: an existing key keeps its place, a new key
      goes last\<close>
  "update [] k v = [(k, v)]"
| "update ((k', v') # kvs) k v =
     (if k' = k then (k, v) # kvs else (k', v') # update kvs k v)"

definition assign :: "(string \<times> 'v) list \<Rightarrow> string \<Rightarrow> 'v \<Rightarrow> (string \<times> 'v) list" where
  \<comment> \<open>\<open>obj[k] = v\<close> for a string \<open>v\<close>, on an object whose key order is observed\<close>
  "assign kvs k v = (if k = ''__proto__'' \<and> k \<notin> fst ` set kvs then kvs else update kvs k v)"

definition toStr :: "string js_value \<Rightarrow> string" where
  \<comment> \<open>the string conversion of a template literal and of \<open>+=\<close>\<close>
  "toStr v = (case v of Undefined \<Rightarrow> ''undefined'' | Own s \<Rightarrow> s | Inherited t \<Rightarrow> t)"

definition truthy :: "bool js_value \<Rightarrow> bool" where
  \<comment> \<open>a flag read from an object, as the condition of \<open>if\<close>, \<open>||\<close> or \<open>? :\<close>\<close>
  "truthy v = (case v of Undefined \<Rightarrow> False | Own b \<Rightarrow> b | Inherited t \<Rightarrow> True)"

abbreviation slice_0_m1 :: "string \<Rightarrow> string" where
  \<comment> \<open>\<open>s.slice(0, -1)\<close>: the string without its last code unit, the empty string stays\<close>
  "slice_0_m1 s \<equiv> butlast s"

fun join :: "string \<Rightarrow> string list \<Rightarrow> string" where
  \<comment> \<open>\<open>Array.prototype.join\<close>\<close>
  "join sep [] = ''''"
| "join sep [x] = x"
| "join sep (x # y # ys) = x @ sep @ join sep (y # ys)"

text \<open>
  What the class can reach outside the object it builds and outside its arguments is a
  \<open>world\<close>: \<open>Object.prototype\<close>, through the reads, and the console, with the rows logged
  so far.
\<close>

record world =
  objectPrototype :: prototype
  console :: "(string \<rightharpoonup> string) list"

section \<open>The collaborators of the builder\<close>

text \<open>
  \<open>StringUtils\<close> is imported by the builder and is not part of the sources at hand, so its
  three static functions are parameters of the model: every theorem holds for any choice
  of them. \<open>validateString\<close> receives the value and the rule as they are read from the row
  and from the rules.
\<close>

record 'r StringUtils =
  normalize :: "string \<Rightarrow> string"
  validateString :: "string js_value \<Rightarrow> 'r js_value \<Rightarrow> bool"
  replaceWhiteSpace :: "string \<Rightarrow> string \<Rightarrow> string"

definition isEmpty :: "string js_value \<Rightarrow> bool" where
  \<comment> \<open>Modelled from the spec: \<open>AnalyticsTool._isEmpty\<close> is inherited from a class that is
      missing here; the spec calls a value empty when it is "empty/missing".\<close>
  "isEmpty v = (v = Undefined \<or> v = Own '''')"

record 'r AnalyticsTool =
  csvLine :: "string \<rightharpoonup> string"
  config :: "(string \<times> string list) list"
  separator :: string
  spaceSeparator :: string
  validationRules :: "string \<rightharpoonup> 'r"
  url :: "string option"

section \<open>The class GA\<close>

record 'r GA = "'r AnalyticsTool" +
  priv_utms :: "(string \<times> string) list"
  priv_hasValidationError :: "string \<rightharpoonup> bool"
  priv_hasUndefinedParameterError :: "string \<rightharpoonup> bool"
  priv_validationErrorMessage :: "string \<rightharpoonup> string"
  priv_undefinedParameterErroMessage :: "string \<rightharpoonup> string"

record BuildResult =
  utms :: "(string \<times> string) list"
  url_ga :: "string option"

definition incorrectPrefix :: string where
  "incorrectPrefix = ''Par'' @ [CHR 0xE2] @ ''metros incorretos:''"

definition notFoundPrefix :: string where
  "notFoundPrefix = ''Par'' @ [CHR 0xE2] @ ''metros n'' @ [CHR 0xE3] @ ''o encontrados:''"

definition correctionSentinel :: string where
  "correctionSentinel = ''Corrija os par'' @ [CHR 0xE2] @ ''metros para gerar a URL''"

subsection \<open>\<open>_buildUtms\<close>\<close>

definition markUndefined :: "prototype \<Rightarrow> string \<Rightarrow> string \<Rightarrow> 'r GA \<Rightarrow> 'r GA" where
  \<comment> \<open>lines 74 and 75\<close>
  "markUndefined P utm column this =
     this\<lparr>priv_hasUndefinedParameterError := put (priv_hasUndefinedParameterError this) utm True,
          priv_undefinedParameterErroMessage := put (priv_undefinedParameterErroMessage this) utm
            (toStr (get P (priv_undefinedParameterErroMessage this) utm) @ '' '' @ column @ '','')\<rparr>"

definition markInvalid :: "prototype \<Rightarrow> string \<Rightarrow> string \<Rightarrow> 'r GA \<Rightarrow> 'r GA" where
  \<comment> \<open>lines 85 and 86\<close>
  "markInvalid P utm column this =
     this\<lparr>priv_hasValidationError := put (priv_hasValidationError this) utm True,
          priv_validationErrorMessage := put (priv_validationErrorMessage this) utm
            (toStr (get P (priv_validationErrorMessage this) utm) @ '' '' @ column @ '','')\<rparr>"

definition failsRule :: "'r StringUtils \<Rightarrow> prototype \<Rightarrow> (string \<rightharpoonup> string) \<Rightarrow> (string \<rightharpoonup> 'r) \<Rightarrow>
    string \<Rightarrow> bool" where
  \<comment> \<open>\<open>rules[c] && !StringUtils.validateString(row[c], rules[c])\<close>, for the row and the
      rules of the object; a rule of the rules object is an array or an object, which is
      truthy, and so is a member of \<open>Object.prototype\<close>\<close>
  "failsRule U P row rules columnNormalized =
     (case get P rules columnNormalized of
        Undefined \<Rightarrow> False
      | Own rule \<Rightarrow> \<not> validateString U (get P row columnNormalized) (Own rule)
      | Inherited t \<Rightarrow> \<not> validateString U (get P row columnNormalized) (Inherited t))"

definition columnStep :: "'r StringUtils \<Rightarrow> prototype \<Rightarrow> string \<Rightarrow> string \<Rightarrow>
    'r GA \<times> string \<Rightarrow> 'r GA \<times> string" where
  \<comment> \<open>the body of the inner \<open>forEach\<close>; the pair is the object and the local \<open>utmString\<close>\<close>
  "columnStep U P utm column = (\<lambda>(this, utmString).
     let columnNormalized = normalize U column in
     if isEmpty (get P (csvLine this) columnNormalized)
     then (markUndefined P utm column this, utmString)
     else
       let this' = (if failsRule U P (csvLine this) (validationRules this) columnNormalized
                    then markInvalid P utm column this else this)
       in (this', utmString @ toStr (get P (csvLine this') columnNormalized) @ separator this'))"

definition utmStep :: "'r StringUtils \<Rightarrow> prototype \<Rightarrow> string \<times> string list \<Rightarrow> 'r GA \<Rightarrow> 'r GA" where
  \<comment> \<open>the body of the outer \<open>forEach\<close>, for the key \<open>utm\<close> and its value \<open>this.config[utm]\<close>\<close>
  "utmStep U P = (\<lambda>(utm, columns) this.
     let (this', utmString) = fold (columnStep U P utm) columns (this, '''')
     in this'\<lparr>priv_utms := assign (priv_utms this') utm
          (replaceWhiteSpace U (slice_0_m1 (normalize U utmString)) (spaceSeparator this'))\<rparr>)"

definition buildUtms :: "'r StringUtils \<Rightarrow> 'r GA \<Rightarrow> world \<Rightarrow> 'r GA \<times> world" where
  \<comment> \<open>\<open>console.log\<close> of the row, then the loop over \<open>Object.keys(this.config)\<close>, as a loop
      over the entries of the config\<close>
  "buildUtms U this w =
     (let w' = w\<lparr>console := console w @ [csvLine this]\<rparr>
      in (fold (utmStep U (objectPrototype w')) (config this) this, w'))"

subsection \<open>\<open>_buildUrl\<close>\<close>

definition buildUrl :: "prototype \<Rightarrow> 'r GA \<Rightarrow> 'r GA" where
  "buildUrl P this =
     (let utmString = fold (\<lambda>(utm, v) acc. acc @ utm @ ''='' @ v @ ''&'') (priv_utms this) ''''
      in this\<lparr>url := Some (toStr (get P (csvLine this) ''url'') @ ''?'' @ slice_0_m1 utmString)\<rparr>)"

subsection \<open>The constructor\<close>

definition super :: "'r GA \<Rightarrow> (string \<rightharpoonup> string) \<Rightarrow> (string \<times> string list) list \<Rightarrow> string \<times> string \<Rightarrow>
    (string \<rightharpoonup> 'r) \<Rightarrow> 'r GA" where
  \<comment> \<open>Modelled from the spec: the constructor of \<open>AnalyticsTool\<close> is missing here; it keeps
      the row, the config, the rules and the two separators (field separator, space
      replacement) that the builder reads back. What else it leaves in the object is not
      known: the other fields are those of \<open>this0\<close>, which is arbitrary.\<close>
  "super this0 row cfg separators rules =
     this0\<lparr>csvLine := row, config := cfg, separator := fst separators,
           spaceSeparator := snd separators, validationRules := rules\<rparr>"

definition reset :: "'r GA \<Rightarrow> 'r GA" where
  \<comment> \<open>lines 9 to 13: the five fields start as \<open>{}\<close>\<close>
  "reset this =
     this\<lparr>priv_utms := [], priv_hasValidationError := Map.empty,
          priv_hasUndefinedParameterError := Map.empty, priv_validationErrorMessage := Map.empty,
          priv_undefinedParameterErroMessage := Map.empty\<rparr>"

definition initUtm :: "string \<Rightarrow> 'r GA \<Rightarrow> 'r GA" where
  \<comment> \<open>lines 15 to 19\<close>
  "initUtm utm this =
     this\<lparr>priv_hasValidationError := put (priv_hasValidationError this) utm False,
          priv_hasUndefinedParameterError := put (priv_hasUndefinedParameterError this) utm False,
          priv_validationErrorMessage := put (priv_validationErrorMessage this) utm incorrectPrefix,
          priv_undefinedParameterErroMessage :=
            put (priv_undefinedParameterErroMessage this) utm notFoundPrefix\<rparr>"

definition new_GA :: "'r StringUtils \<Rightarrow> 'r GA \<Rightarrow> (string \<rightharpoonup> string) \<Rightarrow> (string \<times> string list) list \<Rightarrow>
    string \<times> string \<Rightarrow> (string \<rightharpoonup> 'r) \<Rightarrow> world \<Rightarrow> 'r GA \<times> world" where
  \<comment> \<open>\<open>new GA(csvLine, config, separators, validationRules)\<close> in the world \<open>w\<close>: the object
      built and the world it leaves\<close>
  "new_GA U this0 row cfg separators rules w =
     (let this = fold initUtm (map fst cfg) (reset (super this0 row cfg separators rules));
          (this', w') = buildUtms U this w
      in (buildUrl (objectPrototype w') this', w'))"

definition GA :: "'r StringUtils \<Rightarrow> prototype \<Rightarrow> 'r GA \<Rightarrow> (string \<rightharpoonup> string) \<Rightarrow>
    (string \<times> string list) list \<Rightarrow> string \<times> string \<Rightarrow> (string \<rightharpoonup> 'r) \<Rightarrow> 'r GA" where
  \<comment> \<open>the object that the constructor builds when \<open>Object.prototype\<close> is \<open>P\<close>\<close>
  "GA U P this0 row cfg separators rules =
     fst (new_GA U this0 row cfg separators rules \<lparr>objectPrototype = P, console = []\<rparr>)"

subsection \<open>The getter \<open>buildedFields\<close>\<close>

definition hasErrorAtUtm :: "prototype \<Rightarrow> 'r GA \<Rightarrow> string \<Rightarrow> bool" where
  "hasErrorAtUtm P this utm =
     (truthy (get P (priv_hasUndefinedParameterError this) utm) \<or>
      truthy (get P (priv_hasValidationError this) utm))"

definition pushSliced :: "bool \<Rightarrow> string js_value \<Rightarrow> string list \<Rightarrow> js_error + string list" where
  \<comment> \<open>\<open>if (flag) errorMessages.push(message.slice(0, -1))\<close>; only a string has \<open>slice\<close>\<close>
  "pushSliced flag message errorMessages =
     (if flag
      then (case message of
              Own m \<Rightarrow> Inr (errorMessages @ [slice_0_m1 m])
            | Undefined \<Rightarrow> Inl TypeError
            | Inherited t \<Rightarrow> Inl TypeError)
      else Inr errorMessages)"

definition errorMessageAtUtm :: "prototype \<Rightarrow> 'r GA \<Rightarrow> string \<Rightarrow> js_error + string" where
  "errorMessageAtUtm P this utm =
     (case pushSliced (truthy (get P (priv_hasUndefinedParameterError this) utm))
             (get P (priv_undefinedParameterErroMessage this) utm) [] of
        Inl e \<Rightarrow> Inl e
      | Inr errorMessages \<Rightarrow>
         (case pushSliced (truthy (get P (priv_hasValidationError this) utm))
                 (get P (priv_validationErrorMessage this) utm) errorMessages of
            Inl e \<Rightarrow> Inl e
          | Inr errorMessages' \<Rightarrow> Inr (join '' - '' errorMessages')))"

definition hasAnyErrorAtUtms :: "prototype \<Rightarrow> 'r GA \<Rightarrow> bool" where
  "hasAnyErrorAtUtms P this =
     fold (\<lambda>utm hasError. if hasErrorAtUtm P this utm then True else hasError)
       (map fst (priv_utms this)) False"

fun fillUtms :: "prototype \<Rightarrow> 'r GA \<Rightarrow> (string \<times> string) list \<Rightarrow> (string \<times> string) list \<Rightarrow>
    js_error + (string \<times> string) list" where
  \<comment> \<open>the \<open>map\<close> over \<open>Object.keys(this._utms)\<close> that fills the local object \<open>utms\<close>\<close>
  "fillUtms P this [] out = Inr out"
| "fillUtms P this ((utm, v) # rest) out =
     (if hasErrorAtUtm P this utm
      then (case errorMessageAtUtm P this utm of
              Inl e \<Rightarrow> Inl e
            | Inr m \<Rightarrow> fillUtms P this rest (assign out utm m))
      else fillUtms P this rest (assign out utm v))"

definition buildedFields :: "prototype \<Rightarrow> 'r GA \<Rightarrow> js_error + BuildResult" where
  "buildedFields P this =
     (case fillUtms P this (priv_utms this) [] of
        Inl e \<Rightarrow> Inl e
      | Inr out \<Rightarrow>
          Inr \<lparr>utms = out,
               url_ga = (if hasAnyErrorAtUtms P this then Some correctionSentinel else url this)\<rparr>)"

section \<open>The result in terms of the inputs\<close>

text \<open>
  The functions of this section say, in the words of the specification, what the builder
  is expected to compute from a row, a config, the rules and the separators. They are
  compared with the class above in the theorems. A value is read from the row, and a rule
  from the rules, as the class reads them.
\<close>

definition missingColumns :: "'r StringUtils \<Rightarrow> prototype \<Rightarrow> (string \<rightharpoonup> string) \<Rightarrow> string list \<Rightarrow>
    string list" where
  \<comment> \<open>the source columns whose value is empty or undefined, by display name\<close>
  "missingColumns U P row columns = filter (\<lambda>c. isEmpty (get P row (normalize U c))) columns"

definition presentColumns :: "'r StringUtils \<Rightarrow> prototype \<Rightarrow> (string \<rightharpoonup> string) \<Rightarrow> string list \<Rightarrow>
    string list" where
  "presentColumns U P row columns = filter (\<lambda>c. \<not> isEmpty (get P row (normalize U c))) columns"

definition invalidColumns :: "'r StringUtils \<Rightarrow> prototype \<Rightarrow> (string \<rightharpoonup> string) \<Rightarrow> (string \<rightharpoonup> 'r) \<Rightarrow>
    string list \<Rightarrow> string list" where
  \<comment> \<open>the source columns with a present value that fails its rule\<close>
  "invalidColumns U P row rules columns =
     filter (\<lambda>c. failsRule U P row rules (normalize U c)) (presentColumns U P row columns)"

definition suffixed :: "'r StringUtils \<Rightarrow> prototype \<Rightarrow> (string \<rightharpoonup> string) \<Rightarrow> string \<Rightarrow> string list \<Rightarrow>
    string" where
  \<comment> \<open>the values of the columns, each followed by the field separator\<close>
  "suffixed U P row sep columns = concat (map (\<lambda>c. toStr (get P row (normalize U c)) @ sep) columns)"

definition finish :: "'r StringUtils \<Rightarrow> string \<Rightarrow> string \<Rightarrow> string" where
  \<comment> \<open>normalize, strip the last character, replace the white space\<close>
  "finish U spaceSep text = replaceWhiteSpace U (butlast (normalize U text)) spaceSep"

definition composedValue :: "'r StringUtils \<Rightarrow> prototype \<Rightarrow> (string \<rightharpoonup> string) \<Rightarrow> string \<times> string \<Rightarrow>
    string list \<Rightarrow> string" where
  "composedValue U P row separators columns =
     finish U (snd separators) (suffixed U P row (fst separators) (presentColumns U P row columns))"

definition columnList :: "string list \<Rightarrow> string" where
  "columnList columns = concat (map (\<lambda>c. '' '' @ c @ '','') columns)"

definition errorText :: "string list \<Rightarrow> string list \<Rightarrow> string" where
  "errorText missing invalid =
     join '' - ''
       ((if missing = [] then [] else [butlast (notFoundPrefix @ columnList missing)]) @
        (if invalid = [] then [] else [butlast (incorrectPrefix @ columnList invalid)]))"

definition hasError :: "'r StringUtils \<Rightarrow> prototype \<Rightarrow> (string \<rightharpoonup> string) \<Rightarrow> (string \<rightharpoonup> 'r) \<Rightarrow>
    string list \<Rightarrow> bool" where
  "hasError U P row rules columns =
     (missingColumns U P row columns \<noteq> [] \<or> invalidColumns U P row rules columns \<noteq> [])"

definition fieldValue :: "'r StringUtils \<Rightarrow> prototype \<Rightarrow> (string \<rightharpoonup> string) \<Rightarrow> string \<times> string \<Rightarrow>
    (string \<rightharpoonup> 'r) \<Rightarrow> string list \<Rightarrow> string" where
  "fieldValue U P row separators rules columns =
     (if hasError U P row rules columns
      then errorText (missingColumns U P row columns) (invalidColumns U P row rules columns)
      else composedValue U P row separators columns)"

definition pairs :: "(string \<times> string) list \<Rightarrow> string" where
  \<comment> \<open>the pairs \<open>param=value\<close>, each followed by an ampersand\<close>
  "pairs kvs = concat (map (\<lambda>(utm, v). utm @ ''='' @ v @ ''&'') kvs)"

definition composedUrl :: "prototype \<Rightarrow> (string \<rightharpoonup> string) \<Rightarrow> (string \<times> string) list \<Rightarrow> string" where
  "composedUrl P row kvs = toStr (get P row ''url'') @ ''?'' @ butlast (pairs kvs)"

definition kept :: "(string \<times> 'a) list \<Rightarrow> (string \<times> 'a) list" where
  \<comment> \<open>the entries of a config that get an entry in the objects of the class: all but the
      one of the key \<open>__proto__\<close>\<close>
  "kept cfg = filter (\<lambda>(utm, x). utm \<noteq> ''__proto__'') cfg"

definition composedUtms :: "'r StringUtils \<Rightarrow> prototype \<Rightarrow> (string \<rightharpoonup> string) \<Rightarrow> string \<times> string \<Rightarrow>
    (string \<times> string list) list \<Rightarrow> (string \<times> string) list" where
  "composedUtms U P row separators cfg =
     map (\<lambda>(utm, columns). (utm, composedValue U P row separators columns)) (kept cfg)"

definition anyError :: "'r StringUtils \<Rightarrow> prototype \<Rightarrow> (string \<rightharpoonup> string) \<Rightarrow> (string \<rightharpoonup> 'r) \<Rightarrow>
    (string \<times> string list) list \<Rightarrow> bool" where
  "anyError U P row rules cfg =
     list_ex (\<lambda>(utm, columns). hasError U P row rules columns) (kept cfg)"

definition expected :: "'r StringUtils \<Rightarrow> prototype \<Rightarrow> (string \<rightharpoonup> string) \<Rightarrow>
    (string \<times> string list) list \<Rightarrow> string \<times> string \<Rightarrow> (string \<rightharpoonup> 'r) \<Rightarrow> BuildResult" where
  "expected U P row cfg separators rules =
     \<lparr>utms = map (\<lambda>(utm, columns). (utm, fieldValue U P row separators rules columns)) (kept cfg),
      url_ga = Some (if anyError U P row rules cfg then correctionSentinel
                     else composedUrl P row (composedUtms U P row separators cfg))\<rparr>"


definition raised :: "string \<Rightarrow> string list \<Rightarrow> (string \<rightharpoonup> bool) \<Rightarrow> (string \<rightharpoonup> bool)" where
  \<comment> \<open>the flags of the object once the offending columns of \<open>utm\<close> have been seen\<close>
  "raised utm offending flags = (if offending = [] then flags else put flags utm True)"

definition reported :: "prototype \<Rightarrow> string \<Rightarrow> string list \<Rightarrow> (string \<rightharpoonup> string) \<Rightarrow>
    (string \<rightharpoonup> string)" where
  \<comment> \<open>the messages of the object once the offending columns of \<open>utm\<close> have been appended\<close>
  "reported P utm offending messages =
     (if offending = [] then messages
      else put messages utm (toStr (get P messages utm) @ columnList offending))"

definition start :: "'r GA \<Rightarrow> (string \<rightharpoonup> string) \<Rightarrow> (string \<times> string list) list \<Rightarrow> string \<times> string \<Rightarrow>
    (string \<rightharpoonup> 'r) \<Rightarrow> 'r GA" where
  \<comment> \<open>the object after lines 8 to 20 of the constructor\<close>
  "start this0 row cfg separators rules =
     fold initUtm (map fst cfg) (reset (super this0 row cfg separators rules))"

section \<open>An instance of the collaborators and of the world\<close>

definition foldChar :: "char \<Rightarrow> char" where
  \<comment> \<open>lower case and no diacritic, for the letters of ASCII and Latin-1\<close>
  "foldChar c =
     (let n = (of_char c :: nat);
          l = (if (65 \<le> n \<and> n \<le> 90) \<or> (192 \<le> n \<and> n \<le> 222 \<and> n \<noteq> 215) then n + 32 else n)
      in char_of
        (if 224 \<le> l \<and> l \<le> 229 then 97
         else if l = 231 then 99
         else if 232 \<le> l \<and> l \<le> 235 then 101
         else if 236 \<le> l \<and> l \<le> 239 then 105
         else if l = 241 then 110
         else if 242 \<le> l \<and> l \<le> 246 then 111
         else if 249 \<le> l \<and> l \<le> 252 then 117
         else if l = 253 \<or> l = 255 then 121
         else l))"

definition exampleUtils :: "string list StringUtils" where
  \<comment> \<open>Modelled from the spec: \<open>StringUtils\<close> is missing here. The spec calls normalization a
      "case/diacritic-insensitive canonicalization", the space replacement a character
      that replaces white space, and a rule a "predicate/pattern" on the value of a column;
      in this instance a rule is the list of the values it accepts, and a member of
      \<open>Object.prototype\<close> is a rule that nothing passes.\<close>
  "exampleUtils =
     \<lparr>normalize = map foldChar,
      validateString = (\<lambda>v rule. case rule of
          Own accepted \<Rightarrow> (case v of Own s \<Rightarrow> List.member accepted s | _ \<Rightarrow> False)
        | _ \<Rightarrow> False),
      replaceWhiteSpace = (\<lambda>s r. concat (map (\<lambda>c. if c = CHR '' '' then r else [c]) s))\<rparr>"


definition nativeCode :: "string \<Rightarrow> string" where
  "nativeCode name = ''function '' @ name @ ''() { [native code] }''"

definition nodePrototype :: prototype where
  \<comment> \<open>the members of \<open>Object.prototype\<close> in Node.js, with the strings they convert to\<close>
  "nodePrototype = map_of
     [(''constructor'', nativeCode ''Object''),
      (''__defineGetter__'', nativeCode ''__defineGetter__''),
      (''__defineSetter__'', nativeCode ''__defineSetter__''),
      (''hasOwnProperty'', nativeCode ''hasOwnProperty''),
      (''__lookupGetter__'', nativeCode ''__lookupGetter__''),
      (''__lookupSetter__'', nativeCode ''__lookupSetter__''),
      (''isPrototypeOf'', nativeCode ''isPrototypeOf''),
      (''propertyIsEnumerable'', nativeCode ''propertyIsEnumerable''),
      (''toString'', nativeCode ''toString''),
      (''valueOf'', nativeCode ''valueOf''),
      (''__proto__'', ''[object Object]''),
      (''toLocaleString'', nativeCode ''toLocaleString'')]"

definition freshObject :: "string list GA" where
  \<comment> \<open>an object in which no field has been set\<close>
  "freshObject =
     \<lparr>csvLine = Map.empty, config = [], separator = '''', spaceSeparator = '''',
      validationRules = Map.empty, url = None,
      priv_utms = [], priv_hasValidationError = Map.empty,
      priv_hasUndefinedParameterError = Map.empty, priv_validationErrorMessage = Map.empty,
      priv_undefinedParameterErroMessage = Map.empty\<rparr>"

definition usedObject :: "string list GA" where
  \<comment> \<open>an object whose fields all hold something already\<close>
  "usedObject =
     \<lparr>csvLine = [''url'' \<mapsto> ''http://old.com''], config = [(''utm_term'', [''term''])],
      separator = ''+'', spaceSeparator = ''.'', validationRules = [''term'' \<mapsto> [''old'']],
      url = Some ''http://old.com?utm_term=old'',
      priv_utms = [(''utm_term'', ''old'')], priv_hasValidationError = [''utm_source'' \<mapsto> True],
      priv_hasUndefinedParameterError = [''utm_medium'' \<mapsto> True],
      priv_validationErrorMessage = [''utm_source'' \<mapsto> ''old message,''],
      priv_undefinedParameterErroMessage = [''utm_medium'' \<mapsto> ''old message,'']\<rparr>"

definition nodeWorld :: world where
  "nodeWorld = \<lparr>objectPrototype = nodePrototype, console = []\<rparr>"

definition exampleGA :: "(string \<rightharpoonup> string) \<Rightarrow> (string \<times> string list) list \<Rightarrow>
    (string \<rightharpoonup> string list) \<Rightarrow> string list GA" where
  \<comment> \<open>the object built in Node.js with the collaborators above and the separators
      \<open>_\<close> and \<open>-\<close>\<close>
  "exampleGA row cfg rules = GA exampleUtils nodePrototype freshObject row cfg (''_'', ''-'') rules"

definition exampleBuild :: "(string \<rightharpoonup> string) \<Rightarrow> (string \<times> string list) list \<Rightarrow>
    (string \<rightharpoonup> string list) \<Rightarrow> js_error + BuildResult" where
  \<comment> \<open>\<open>buildedFields\<close> of that object\<close>
  "exampleBuild row cfg rules = buildedFields nodePrototype (exampleGA row cfg rules)"

subsection \<open>Rows, configs and rules of the examples\<close>

definition scenarioRow :: "string \<rightharpoonup> string" where
  "scenarioRow = [''url'' \<mapsto> ''http://x.com'', ''source'' \<mapsto> ''google'', ''medium'' \<mapsto> ''cpc'']"

definition scenarioConfig :: "(string \<times> string list) list" where
  "scenarioConfig = [(''utm_source'', [''source'']), (''utm_medium'', [''medium''])]"

definition scenarioConfigSwapped :: "(string \<times> string list) list" where
  "scenarioConfigSwapped = [(''utm_medium'', [''medium'']), (''utm_source'', [''source''])]"

definition noRules :: "string \<rightharpoonup> string list" where
  "noRules = Map.empty"

















section \<open>Reads and writes\<close>

lemma put_apply:
  "put m k v k' = (if k' = k \<and> \<not> (k = ''__proto__'' \<and> m k = None) then Some v else m k')"
  by (auto simp: put_def)

lemma put_other: "k' \<noteq> k \<Longrightarrow> put m k v k' = m k'"
  by (simp add: put_def)


lemma put_proto: "m ''__proto__'' = None \<Longrightarrow> put m k v ''__proto__'' = None"
  by (simp add: put_def)

lemma put_put: "put (put m k v) k v' = put m k v'"
  by (auto simp: put_def)

lemma get_put_same: "k \<noteq> ''__proto__'' \<Longrightarrow> get P (put m k v) k = Own v"
  by (simp add: get_def put_def)

lemma get_Own: "m k = Some v \<Longrightarrow> get P m k = Own v"
  by (simp add: get_def)

lemma update_fresh: "k \<notin> fst ` set kvs \<Longrightarrow> update kvs k v = kvs @ [(k, v)]"
  by (induction kvs k v rule: update.induct) auto

lemma keys_update: "fst ` set (update kvs k v) = insert k (fst ` set kvs)"
  by (induction kvs k v rule: update.induct) (auto simp: image_iff)

lemma assign_fresh: "k \<notin> fst ` set kvs \<Longrightarrow> k \<noteq> ''__proto__'' \<Longrightarrow> assign kvs k v = kvs @ [(k, v)]"
  by (simp add: assign_def update_fresh)

lemma assign_proto: "''__proto__'' \<notin> fst ` set kvs \<Longrightarrow> assign kvs ''__proto__'' v = kvs"
  by (simp add: assign_def)

lemma keys_assign:
  "fst ` set (assign kvs k v) =
     (if k = ''__proto__'' \<and> k \<notin> fst ` set kvs then fst ` set kvs else insert k (fst ` set kvs))"
  by (auto simp: assign_def keys_update)

section \<open>The two loops of \<open>_buildUtms\<close>\<close>

text \<open>
  What the loops leave in the flags and in the messages of a parameter: a flag is raised
  when a column offends, and the display names of the offending columns are appended to
  the message.
\<close>

lemma raised_Nil [simp]: "raised utm [] flags = flags"
  by (simp add: raised_def)

lemma raised_Cons [simp]: "raised utm (c # cs) flags = raised utm cs (put flags utm True)"
  by (simp add: raised_def put_put)

lemma reported_Nil [simp]: "reported P utm [] messages = messages"
  by (simp add: reported_def)

lemma reported_Cons [simp]:
  "reported P utm (c # cs) messages =
     reported P utm cs (put messages utm (toStr (get P messages utm) @ '' '' @ c @ '',''))"
proof (cases "utm = ''__proto__'' \<and> messages utm = None")
  case True
  then show ?thesis
    by (auto simp: reported_def put_def)
next
  case False
  then have "get P (put messages utm x) utm = Own x" for x
    by (auto simp: get_def put_def)
  then show ?thesis
    by (simp add: reported_def put_put columnList_def toStr_def)
qed

lemma columnStep_apply:
  "columnStep U P utm c (this, acc) =
     (if isEmpty (get P (csvLine this) (normalize U c)) then (markUndefined P utm c this, acc)
      else if failsRule U P (csvLine this) (validationRules this) (normalize U c)
      then (markInvalid P utm c this,
            acc @ toStr (get P (csvLine this) (normalize U c)) @ separator this)
      else (this, acc @ toStr (get P (csvLine this) (normalize U c)) @ separator this))"
  by (simp add: columnStep_def Let_def markInvalid_def)

lemma fold_columnStep:
  "fold (columnStep U P utm) columns (this, acc) =
     (this\<lparr>priv_hasValidationError :=
             raised utm (invalidColumns U P (csvLine this) (validationRules this) columns)
               (priv_hasValidationError this),
           priv_hasUndefinedParameterError :=
             raised utm (missingColumns U P (csvLine this) columns)
               (priv_hasUndefinedParameterError this),
           priv_validationErrorMessage :=
             reported P utm (invalidColumns U P (csvLine this) (validationRules this) columns)
               (priv_validationErrorMessage this),
           priv_undefinedParameterErroMessage :=
             reported P utm (missingColumns U P (csvLine this) columns)
               (priv_undefinedParameterErroMessage this)\<rparr>,
      acc @ suffixed U P (csvLine this) (separator this) (presentColumns U P (csvLine this) columns))"
proof (induction columns arbitrary: this acc)
  case Nil
  show ?case
    by (simp add: invalidColumns_def missingColumns_def presentColumns_def suffixed_def)
next
  case (Cons c columns)
  show ?case
    by (simp add: Cons.IH columnStep_apply markUndefined_def markInvalid_def
        invalidColumns_def missingColumns_def presentColumns_def suffixed_def)
qed

lemma utmStep_apply:
  "utmStep U P (utm, columns) this =
     this\<lparr>priv_utms := assign (priv_utms this) utm
             (composedValue U P (csvLine this) (separator this, spaceSeparator this) columns),
          priv_hasValidationError :=
             raised utm (invalidColumns U P (csvLine this) (validationRules this) columns)
               (priv_hasValidationError this),
           priv_hasUndefinedParameterError :=
             raised utm (missingColumns U P (csvLine this) columns)
               (priv_hasUndefinedParameterError this),
           priv_validationErrorMessage :=
             reported P utm (invalidColumns U P (csvLine this) (validationRules this) columns)
               (priv_validationErrorMessage this),
           priv_undefinedParameterErroMessage :=
             reported P utm (missingColumns U P (csvLine this) columns)
               (priv_undefinedParameterErroMessage this)\<rparr>"
  by (simp add: utmStep_def fold_columnStep composedValue_def finish_def)

lemma fold_utmStep_frame:
  "csvLine (fold (utmStep U P) cfg this) = csvLine this \<and>
   config (fold (utmStep U P) cfg this) = config this \<and>
   separator (fold (utmStep U P) cfg this) = separator this \<and>
   spaceSeparator (fold (utmStep U P) cfg this) = spaceSeparator this \<and>
   validationRules (fold (utmStep U P) cfg this) = validationRules this \<and>
   url (fold (utmStep U P) cfg this) = url this"
proof (induction cfg arbitrary: this)
  case Nil
  show ?case by simp
next
  case (Cons e cfg)
  obtain utm columns where e: "e = (utm, columns)" by (cases e)
  show ?case by (simp add: e Cons.IH utmStep_apply)
qed

lemma kept_Cons:
  "kept ((utm, x) # cfg) = (if utm = ''__proto__'' then kept cfg else (utm, x) # kept cfg)"
  by (simp add: kept_def)

lemma kept_Nil [simp]: "kept [] = []"
  by (simp add: kept_def)

lemma fold_utmStep_utms:
  "distinct (map fst cfg) \<Longrightarrow> fst ` set cfg \<inter> fst ` set (priv_utms this) = {} \<Longrightarrow>
   ''__proto__'' \<notin> fst ` set (priv_utms this) \<Longrightarrow>
   priv_utms (fold (utmStep U P) cfg this) =
     priv_utms this @
     map (\<lambda>(utm, columns).
       (utm, composedValue U P (csvLine this) (separator this, spaceSeparator this) columns))
       (kept cfg)"
proof (induction cfg arbitrary: this)
  case Nil
  show ?case by simp
next
  case (Cons e cfg)
  obtain utm columns where e: "e = (utm, columns)" by (cases e)
  let ?next = "utmStep U P (utm, columns) this"
  let ?v = "composedValue U P (csvLine this) (separator this, spaceSeparator this) columns"
  have d: "distinct (map fst cfg)" and new: "utm \<notin> fst ` set cfg"
    using Cons.prems(1) by (simp_all add: e)
  have fresh: "utm \<notin> fst ` set (priv_utms this)"
    and disj: "fst ` set cfg \<inter> fst ` set (priv_utms this) = {}"
    using Cons.prems(2) by (auto simp: e)
  have frame: "csvLine ?next = csvLine this" "separator ?next = separator this"
    "spaceSeparator ?next = spaceSeparator this"
    by (simp_all add: utmStep_apply)
  show ?case
  proof (cases "utm = ''__proto__''")
    case True
    have same: "priv_utms ?next = priv_utms this"
      using Cons.prems(3) by (simp add: True utmStep_apply assign_proto)
    have "priv_utms (fold (utmStep U P) cfg ?next) =
        priv_utms ?next @
        map (\<lambda>(utm, columns).
          (utm, composedValue U P (csvLine ?next) (separator ?next, spaceSeparator ?next) columns))
          (kept cfg)"
      using d disj Cons.prems(3) by (intro Cons.IH) (simp_all add: same)
    moreover have "kept ((utm, columns) # cfg) = kept cfg"
      using True by (simp add: kept_Cons)
    ultimately show ?thesis
      by (simp add: e frame same)
  next
    case False
    have step: "priv_utms ?next = priv_utms this @ [(utm, ?v)]"
      by (simp add: utmStep_apply assign_fresh [OF fresh False])
    have "fst ` set cfg \<inter> fst ` set (priv_utms ?next) = {}"
      using disj new by (auto simp: step)
    moreover have "''__proto__'' \<notin> fst ` set (priv_utms ?next)"
      using Cons.prems(3) False by (simp add: step)
    ultimately have "priv_utms (fold (utmStep U P) cfg ?next) =
        priv_utms ?next @
        map (\<lambda>(utm, columns).
          (utm, composedValue U P (csvLine ?next) (separator ?next, spaceSeparator ?next) columns))
          (kept cfg)"
      using d by (intro Cons.IH)
    moreover have "kept ((utm, columns) # cfg) = (utm, columns) # kept cfg"
      using False by (simp add: kept_Cons)
    ultimately show ?thesis
      by (simp add: e frame step)
  qed
qed

lemma fold_utmStep_hasUndefined:
  "distinct (map fst cfg) \<Longrightarrow>
   priv_hasUndefinedParameterError (fold (utmStep U P) cfg this) p =
     (case map_of cfg p of
        None \<Rightarrow> priv_hasUndefinedParameterError this p
      | Some columns \<Rightarrow>
          raised p (missingColumns U P (csvLine this) columns) (priv_hasUndefinedParameterError this) p)"
proof (induction cfg arbitrary: this)
  case Nil
  show ?case by simp
next
  case (Cons e cfg)
  obtain utm columns where e: "e = (utm, columns)" by (cases e)
  have none: "map_of cfg utm = None"
    using Cons.prems by (simp add: e map_of_eq_None_iff)
  show ?case
    using Cons.prems
    by (auto simp: Cons.IH e utmStep_apply none raised_def put_def split: option.splits)
qed

lemma fold_utmStep_hasValidation:
  "distinct (map fst cfg) \<Longrightarrow>
   priv_hasValidationError (fold (utmStep U P) cfg this) p =
     (case map_of cfg p of
        None \<Rightarrow> priv_hasValidationError this p
      | Some columns \<Rightarrow>
          raised p (invalidColumns U P (csvLine this) (validationRules this) columns)
            (priv_hasValidationError this) p)"
proof (induction cfg arbitrary: this)
  case Nil
  show ?case by simp
next
  case (Cons e cfg)
  obtain utm columns where e: "e = (utm, columns)" by (cases e)
  have none: "map_of cfg utm = None"
    using Cons.prems by (simp add: e map_of_eq_None_iff)
  show ?case
    using Cons.prems
    by (auto simp: Cons.IH e utmStep_apply none raised_def put_def split: option.splits)
qed

lemma fold_utmStep_undefinedMessage:
  "distinct (map fst cfg) \<Longrightarrow>
   priv_undefinedParameterErroMessage (fold (utmStep U P) cfg this) p =
     (case map_of cfg p of
        None \<Rightarrow> priv_undefinedParameterErroMessage this p
      | Some columns \<Rightarrow>
          reported P p (missingColumns U P (csvLine this) columns)
            (priv_undefinedParameterErroMessage this) p)"
proof (induction cfg arbitrary: this)
  case Nil
  show ?case by simp
next
  case (Cons e cfg)
  obtain utm columns where e: "e = (utm, columns)" by (cases e)
  have none: "map_of cfg utm = None"
    using Cons.prems by (simp add: e map_of_eq_None_iff)
  show ?case
    using Cons.prems
    by (auto simp: Cons.IH e utmStep_apply none reported_def put_def get_def split: option.splits)
qed

lemma fold_utmStep_validationMessage:
  "distinct (map fst cfg) \<Longrightarrow>
   priv_validationErrorMessage (fold (utmStep U P) cfg this) p =
     (case map_of cfg p of
        None \<Rightarrow> priv_validationErrorMessage this p
      | Some columns \<Rightarrow>
          reported P p (invalidColumns U P (csvLine this) (validationRules this) columns)
            (priv_validationErrorMessage this) p)"
proof (induction cfg arbitrary: this)
  case Nil
  show ?case by simp
next
  case (Cons e cfg)
  obtain utm columns where e: "e = (utm, columns)" by (cases e)
  have none: "map_of cfg utm = None"
    using Cons.prems by (simp add: e map_of_eq_None_iff)
  show ?case
    using Cons.prems
    by (auto simp: Cons.IH e utmStep_apply none reported_def put_def get_def split: option.splits)
qed

section \<open>The object after the constructor\<close>

text \<open>
  The keys of a JavaScript object are distinct, so a config is an association list with
  distinct keys: \<open>distinct (map fst cfg)\<close> is the hypothesis that the list stands for an
  object.
\<close>

lemma fold_initUtm_frame:
  "csvLine (fold initUtm ks this) = csvLine this \<and>
   config (fold initUtm ks this) = config this \<and>
   separator (fold initUtm ks this) = separator this \<and>
   spaceSeparator (fold initUtm ks this) = spaceSeparator this \<and>
   validationRules (fold initUtm ks this) = validationRules this \<and>
   url (fold initUtm ks this) = url this \<and>
   priv_utms (fold initUtm ks this) = priv_utms this"
  by (induction ks arbitrary: this) (simp_all add: initUtm_def)

lemma fold_initUtm_flags:
  "priv_hasValidationError this ''__proto__'' = None \<and>
   priv_hasUndefinedParameterError this ''__proto__'' = None \<Longrightarrow>
   priv_hasValidationError (fold initUtm ks this) p =
     (if p \<in> set ks \<and> p \<noteq> ''__proto__'' then Some False else priv_hasValidationError this p) \<and>
   priv_hasUndefinedParameterError (fold initUtm ks this) p =
     (if p \<in> set ks \<and> p \<noteq> ''__proto__'' then Some False
      else priv_hasUndefinedParameterError this p)"
proof (induction ks arbitrary: this)
  case Nil
  show ?case by simp
next
  case (Cons k ks)
  have "priv_hasValidationError (initUtm k this) ''__proto__'' = None \<and>
      priv_hasUndefinedParameterError (initUtm k this) ''__proto__'' = None"
    using Cons.prems by (simp add: initUtm_def put_proto)
  from Cons.IH [OF this] show ?case
    using Cons.prems by (auto simp: initUtm_def put_apply)
qed

lemma fold_initUtm_messages:
  "priv_validationErrorMessage this ''__proto__'' = None \<and>
   priv_undefinedParameterErroMessage this ''__proto__'' = None \<Longrightarrow>
   priv_validationErrorMessage (fold initUtm ks this) p =
     (if p \<in> set ks \<and> p \<noteq> ''__proto__'' then Some incorrectPrefix
      else priv_validationErrorMessage this p) \<and>
   priv_undefinedParameterErroMessage (fold initUtm ks this) p =
     (if p \<in> set ks \<and> p \<noteq> ''__proto__'' then Some notFoundPrefix
      else priv_undefinedParameterErroMessage this p)"
proof (induction ks arbitrary: this)
  case Nil
  show ?case by simp
next
  case (Cons k ks)
  have "priv_validationErrorMessage (initUtm k this) ''__proto__'' = None \<and>
      priv_undefinedParameterErroMessage (initUtm k this) ''__proto__'' = None"
    using Cons.prems by (simp add: initUtm_def put_proto)
  from Cons.IH [OF this] show ?case
    using Cons.prems by (auto simp: initUtm_def put_apply)
qed

lemma fold_pairs:
  "fold (\<lambda>(utm, v) acc. acc @ utm @ ''='' @ v @ ''&'') kvs acc = acc @ pairs kvs"
  by (induction kvs arbitrary: acc) (auto simp: pairs_def)

lemma buildUrl_apply:
  "buildUrl P this = this\<lparr>url := Some (composedUrl P (csvLine this) (priv_utms this))\<rparr>"
  by (simp only: buildUrl_def composedUrl_def fold_pairs Let_def append_Nil)

lemma start_frame:
  "csvLine (start this0 row cfg separators rules) = row"
  "config (start this0 row cfg separators rules) = cfg"
  "separator (start this0 row cfg separators rules) = fst separators"
  "spaceSeparator (start this0 row cfg separators rules) = snd separators"
  "validationRules (start this0 row cfg separators rules) = rules"
  "priv_utms (start this0 row cfg separators rules) = []"
  by (simp_all add: start_def fold_initUtm_frame reset_def super_def)

lemma start_flags:
  "priv_hasValidationError (start this0 row cfg separators rules) p =
     (if p \<in> fst ` set cfg \<and> p \<noteq> ''__proto__'' then Some False else None)"
  "priv_hasUndefinedParameterError (start this0 row cfg separators rules) p =
     (if p \<in> fst ` set cfg \<and> p \<noteq> ''__proto__'' then Some False else None)"
  by (simp_all add: start_def fold_initUtm_flags reset_def)

lemma start_messages:
  "priv_validationErrorMessage (start this0 row cfg separators rules) p =
     (if p \<in> fst ` set cfg \<and> p \<noteq> ''__proto__'' then Some incorrectPrefix else None)"
  "priv_undefinedParameterErroMessage (start this0 row cfg separators rules) p =
     (if p \<in> fst ` set cfg \<and> p \<noteq> ''__proto__'' then Some notFoundPrefix else None)"
  by (simp_all add: start_def fold_initUtm_messages reset_def)

lemma new_GA_apply:
  "new_GA U this0 row cfg separators rules w =
     (buildUrl (objectPrototype w)
        (fold (utmStep U (objectPrototype w)) cfg (start this0 row cfg separators rules)),
      w\<lparr>console := console w @ [row]\<rparr>)"
  by (simp add: new_GA_def buildUtms_def Let_def start_def [symmetric] start_frame)

lemma GA_unfold:
  "GA U P this0 row cfg separators rules =
     buildUrl P (fold (utmStep U P) cfg (start this0 row cfg separators rules))"
  by (simp add: GA_def new_GA_apply)

lemma new_GA_GA:
  "new_GA U this0 row cfg separators rules w =
     (GA U (objectPrototype w) this0 row cfg separators rules, w\<lparr>console := console w @ [row]\<rparr>)"
  by (simp add: new_GA_apply GA_unfold)

lemma map_of_in_keys: "map_of cfg p = Some columns \<Longrightarrow> p \<in> fst ` set cfg"
  by (metis map_of_eq_None_iff option.distinct(1))

lemma GA_frame:
  "csvLine (GA U P this0 row cfg separators rules) = row"
  "validationRules (GA U P this0 row cfg separators rules) = rules"
  by (simp_all add: GA_unfold buildUrl_apply fold_utmStep_frame start_frame)

lemma GA_utms:
  "distinct (map fst cfg) \<Longrightarrow>
   priv_utms (GA U P this0 row cfg separators rules) = composedUtms U P row separators cfg"
  by (simp add: GA_unfold buildUrl_apply fold_utmStep_utms start_frame composedUtms_def)

lemma GA_url_any:
  "url (GA U P this0 row cfg separators rules) =
     Some (composedUrl P row (priv_utms (GA U P this0 row cfg separators rules)))"
  by (simp add: GA_unfold buildUrl_apply fold_utmStep_frame start_frame)

lemma GA_url:
  "distinct (map fst cfg) \<Longrightarrow>
   url (GA U P this0 row cfg separators rules) =
     Some (composedUrl P row (composedUtms U P row separators cfg))"
  by (simp add: GA_url_any GA_utms)

lemma GA_hasUndefined:
  "distinct (map fst cfg) \<Longrightarrow> map_of cfg p = Some columns \<Longrightarrow> p \<noteq> ''__proto__'' \<Longrightarrow>
   priv_hasUndefinedParameterError (GA U P this0 row cfg separators rules) p =
     Some (missingColumns U P row columns \<noteq> [])"
  using map_of_in_keys [of cfg p columns]
  by (simp add: GA_unfold buildUrl_apply fold_utmStep_hasUndefined start_frame start_flags
      raised_def put_def)

lemma GA_hasValidation:
  "distinct (map fst cfg) \<Longrightarrow> map_of cfg p = Some columns \<Longrightarrow> p \<noteq> ''__proto__'' \<Longrightarrow>
   priv_hasValidationError (GA U P this0 row cfg separators rules) p =
     Some (invalidColumns U P row rules columns \<noteq> [])"
  using map_of_in_keys [of cfg p columns]
  by (simp add: GA_unfold buildUrl_apply fold_utmStep_hasValidation start_frame start_flags
      raised_def put_def)

lemma GA_undefinedMessage:
  "distinct (map fst cfg) \<Longrightarrow> map_of cfg p = Some columns \<Longrightarrow> p \<noteq> ''__proto__'' \<Longrightarrow>
   priv_undefinedParameterErroMessage (GA U P this0 row cfg separators rules) p =
     Some (notFoundPrefix @ columnList (missingColumns U P row columns))"
  using map_of_in_keys [of cfg p columns]
  by (simp add: GA_unfold buildUrl_apply fold_utmStep_undefinedMessage start_frame
      start_messages reported_def put_def get_def toStr_def columnList_def)

lemma GA_validationMessage:
  "distinct (map fst cfg) \<Longrightarrow> map_of cfg p = Some columns \<Longrightarrow> p \<noteq> ''__proto__'' \<Longrightarrow>
   priv_validationErrorMessage (GA U P this0 row cfg separators rules) p =
     Some (incorrectPrefix @ columnList (invalidColumns U P row rules columns))"
  using map_of_in_keys [of cfg p columns]
  by (simp add: GA_unfold buildUrl_apply fold_utmStep_validationMessage start_frame
      start_messages reported_def put_def get_def toStr_def columnList_def)

lemma raised_no_entry:
  "flags p = None \<Longrightarrow> p \<notin> fst ` set cfg \<or> p = ''__proto__'' \<Longrightarrow>
   (case map_of cfg p of None \<Rightarrow> flags p | Some columns \<Rightarrow> raised p (f columns) flags p) = None"
proof (cases "map_of cfg p")
  case None
  assume "flags p = None"
  then show ?thesis by (simp add: None)
next
  case (Some columns)
  assume old: "flags p = None" and "p \<notin> fst ` set cfg \<or> p = ''__proto__''"
  then have "p = ''__proto__''"
    using map_of_in_keys [OF Some] by blast
  then have "put flags p True = flags"
    using old by (simp add: put_def)
  then show ?thesis
    using old by (simp add: Some raised_def)
qed

lemma GA_no_entry:
  assumes "distinct (map fst cfg)" and "p \<notin> fst ` set cfg \<or> p = ''__proto__''"
  shows "priv_hasUndefinedParameterError (GA U P this0 row cfg separators rules) p = None"
    and "priv_hasValidationError (GA U P this0 row cfg separators rules) p = None"
proof -
  let ?s = "start this0 row cfg separators rules"
  have u: "priv_hasUndefinedParameterError ?s p = None"
    and v: "priv_hasValidationError ?s p = None"
    using assms(2) by (auto simp: start_flags)
  show "priv_hasUndefinedParameterError (GA U P this0 row cfg separators rules) p = None"
    using raised_no_entry [where flags = "priv_hasUndefinedParameterError ?s" and p = p
        and cfg = cfg and f = "missingColumns U P (csvLine ?s)", OF u assms(2)]
    by (simp add: GA_unfold buildUrl_apply fold_utmStep_hasUndefined [OF assms(1)])
  show "priv_hasValidationError (GA U P this0 row cfg separators rules) p = None"
    using raised_no_entry [where flags = "priv_hasValidationError ?s" and p = p
        and cfg = cfg and f = "invalidColumns U P (csvLine ?s) (validationRules ?s)",
        OF v assms(2)]
    by (simp add: GA_unfold buildUrl_apply fold_utmStep_hasValidation [OF assms(1)])
qed

lemma GA_hasErrorAtUtm:
  "distinct (map fst cfg) \<Longrightarrow> map_of cfg p = Some columns \<Longrightarrow> p \<noteq> ''__proto__'' \<Longrightarrow>
   hasErrorAtUtm P (GA U P this0 row cfg separators rules) p = hasError U P row rules columns"
  by (simp add: hasErrorAtUtm_def GA_hasUndefined GA_hasValidation hasError_def get_def truthy_def)

lemma GA_hasErrorAtUtm_no_entry:
  "distinct (map fst cfg) \<Longrightarrow> p \<notin> fst ` set cfg \<or> p = ''__proto__'' \<Longrightarrow>
   hasErrorAtUtm P (GA U P this0 row cfg separators rules) p = (P p \<noteq> None)"
  by (simp add: hasErrorAtUtm_def GA_no_entry get_def truthy_def split: option.splits)

lemma GA_errorMessageAtUtm:
  "distinct (map fst cfg) \<Longrightarrow> map_of cfg p = Some columns \<Longrightarrow> p \<noteq> ''__proto__'' \<Longrightarrow>
   errorMessageAtUtm P (GA U P this0 row cfg separators rules) p =
     Inr (errorText (missingColumns U P row columns) (invalidColumns U P row rules columns))"
  by (simp add: errorMessageAtUtm_def pushSliced_def GA_hasUndefined GA_hasValidation
      GA_undefinedMessage GA_validationMessage errorText_def get_def truthy_def)

section \<open>The getter in terms of the inputs\<close>

lemma kept_subset: "set (kept cfg) \<subseteq> set cfg"
  by (auto simp: kept_def)

lemma kept_not_proto: "(p, x) \<in> set (kept cfg) \<Longrightarrow> p \<noteq> ''__proto__''"
  by (auto simp: kept_def)


lemma distinct_kept: "distinct (map fst cfg) \<Longrightarrow> distinct (map fst (kept cfg))"
  by (simp add: kept_def distinct_map_filter)

lemma keys_kept: "fst ` set (kept cfg) = fst ` set cfg - {''__proto__''}"
  by (auto simp: kept_def image_iff)

lemma fillUtms_GA:
  "distinct (map fst cfg) \<Longrightarrow> set cfg' \<subseteq> set (kept cfg) \<Longrightarrow> distinct (map fst cfg') \<Longrightarrow>
   fst ` set cfg' \<inter> fst ` set out = {} \<Longrightarrow>
   fillUtms P (GA U P this0 row cfg separators rules)
       (map (\<lambda>(utm, columns). (utm, composedValue U P row separators columns)) cfg') out =
     Inr (out @ map (\<lambda>(utm, columns). (utm, fieldValue U P row separators rules columns)) cfg')"
proof (induction cfg' arbitrary: out)
  case Nil
  show ?case by simp
next
  case (Cons e cfg')
  obtain utm columns where e: "e = (utm, columns)" by (cases e)
  have in_kept: "(utm, columns) \<in> set (kept cfg)"
    using Cons.prems(2) by (simp add: e)
  then have np: "utm \<noteq> ''__proto__''" and in_cfg: "(utm, columns) \<in> set cfg"
    using kept_not_proto kept_subset by fastforce+
  have look: "map_of cfg utm = Some columns"
    using Cons.prems(1) in_cfg by simp
  have fresh: "utm \<notin> fst ` set out"
    using Cons.prems(4) by (auto simp: e)
  have disj: "fst ` set cfg' \<inter> fst ` set (out @ [(utm, v)]) = {}" for v
    using Cons.prems(3,4) by (auto simp: e)
  have tl: "fillUtms P (GA U P this0 row cfg separators rules)
      (map (\<lambda>(utm, columns). (utm, composedValue U P row separators columns)) cfg')
      (out @ [(utm, v)]) =
    Inr ((out @ [(utm, v)]) @
      map (\<lambda>(utm, columns). (utm, fieldValue U P row separators rules columns)) cfg')" for v
    using Cons.prems by (intro Cons.IH disj) simp_all
  show ?case
    unfolding e
    by (simp add: GA_hasErrorAtUtm [OF Cons.prems(1) look np]
        GA_errorMessageAtUtm [OF Cons.prems(1) look np] assign_fresh [OF fresh np] tl
        fieldValue_def)
qed

lemma fold_hasError:
  "fold (\<lambda>utm hasError. if Q utm then True else hasError) ks b = (b \<or> (\<exists>k \<in> set ks. Q k))"
  by (induction ks arbitrary: b) auto

lemma hasAnyErrorAtUtms_iff:
  "hasAnyErrorAtUtms P this = (\<exists>k \<in> fst ` set (priv_utms this). hasErrorAtUtm P this k)"
  by (simp add: hasAnyErrorAtUtms_def fold_hasError)

lemma GA_hasAnyErrorAtUtms:
  assumes "distinct (map fst cfg)"
  shows "hasAnyErrorAtUtms P (GA U P this0 row cfg separators rules) = anyError U P row rules cfg"
proof -
  let ?ga = "GA U P this0 row cfg separators rules"
  have keys: "fst ` set (priv_utms ?ga) = fst ` set (kept cfg)"
    by (simp add: GA_utms [OF assms] composedUtms_def image_image split_def)
  have "(\<exists>k \<in> fst ` set (kept cfg). hasErrorAtUtm P ?ga k) =
      (\<exists>e \<in> set (kept cfg). case e of (utm, columns) \<Rightarrow> hasError U P row rules columns)"
  proof
    assume "\<exists>k \<in> fst ` set (kept cfg). hasErrorAtUtm P ?ga k"
    then obtain k columns where in_kept: "(k, columns) \<in> set (kept cfg)"
      and err: "hasErrorAtUtm P ?ga k" by auto
    have "map_of cfg k = Some columns" and "k \<noteq> ''__proto__''"
      using assms in_kept kept_subset kept_not_proto by fastforce+
    then have "hasError U P row rules columns"
      using err by (simp add: GA_hasErrorAtUtm [OF assms])
    then show "\<exists>e \<in> set (kept cfg). case e of (utm, columns) \<Rightarrow> hasError U P row rules columns"
      using in_kept by auto
  next
    assume "\<exists>e \<in> set (kept cfg). case e of (utm, columns) \<Rightarrow> hasError U P row rules columns"
    then obtain k columns where in_kept: "(k, columns) \<in> set (kept cfg)"
      and err: "hasError U P row rules columns" by auto
    have "map_of cfg k = Some columns" and "k \<noteq> ''__proto__''"
      using assms in_kept kept_subset kept_not_proto by fastforce+
    then have "hasErrorAtUtm P ?ga k"
      using err by (simp add: GA_hasErrorAtUtm [OF assms])
    then show "\<exists>k \<in> fst ` set (kept cfg). hasErrorAtUtm P ?ga k"
      using in_kept by force
  qed
  then show ?thesis
    by (simp only: hasAnyErrorAtUtms_iff keys anyError_def list_ex_iff)
qed

lemma buildedFields_GA:
  assumes "distinct (map fst cfg)"
  shows "buildedFields P (GA U P this0 row cfg separators rules) =
     Inr (expected U P row cfg separators rules)"
proof -
  have "fillUtms P (GA U P this0 row cfg separators rules)
      (map (\<lambda>(utm, columns). (utm, composedValue U P row separators columns)) (kept cfg)) [] =
      Inr ([] @ map (\<lambda>(utm, columns). (utm, fieldValue U P row separators rules columns)) (kept cfg))"
    using assms by (intro fillUtms_GA) (simp_all add: distinct_kept)
  then show ?thesis
    by (simp add: buildedFields_def GA_utms [OF assms] GA_url [OF assms]
        GA_hasAnyErrorAtUtms [OF assms] expected_def composedUtms_def)
qed











lemma map_of_fields_none:
  "p \<notin> fst ` set cfg \<Longrightarrow> map_of (map (\<lambda>(k, v). (k, f v)) cfg) p = None"
  by (induction cfg) auto


lemma utms_expected_proto:
  "map_of (utms (expected U P row cfg separators rules)) ''__proto__'' = None"
  by (simp add: expected_def map_of_fields_none keys_kept)





section \<open>The getter always returns\<close>

text \<open>
  The constructor gives every key of the config but \<open>__proto__\<close> its two messages before the
  loops run, and the getter reads the messages of the keys of \<open>_utms\<close> only, which are those
  keys. So \<open>slice\<close> is only called on strings. This part does not need the keys of the list
  to be distinct.
\<close>

lemma fold_utmStep_keys:
  "''__proto__'' \<notin> fst ` set (priv_utms this) \<Longrightarrow>
   fst ` set (priv_utms (fold (utmStep U P) cfg this)) =
     fst ` set (priv_utms this) \<union> (fst ` set cfg - {''__proto__''})"
proof (induction cfg arbitrary: this)
  case Nil
  show ?case by simp
next
  case (Cons e cfg)
  obtain utm columns where e: "e = (utm, columns)" by (cases e)
  let ?next = "utmStep U P (utm, columns) this"
  have keys: "fst ` set (priv_utms ?next) =
      (if utm = ''__proto__'' then fst ` set (priv_utms this)
       else insert utm (fst ` set (priv_utms this)))"
    using Cons.prems by (simp add: utmStep_apply keys_assign)
  then have "''__proto__'' \<notin> fst ` set (priv_utms ?next)"
    using Cons.prems by (simp split: if_splits)
  from Cons.IH [OF this] show ?case
    by (auto simp: e keys split: if_splits)
qed

lemma reported_defined: "messages k \<noteq> None \<Longrightarrow> reported P utm offending messages k \<noteq> None"
  by (simp add: reported_def put_def)

lemma fold_utmStep_messages_defined:
  "priv_undefinedParameterErroMessage this k \<noteq> None \<and> priv_validationErrorMessage this k \<noteq> None \<Longrightarrow>
   priv_undefinedParameterErroMessage (fold (utmStep U P) cfg this) k \<noteq> None \<and>
   priv_validationErrorMessage (fold (utmStep U P) cfg this) k \<noteq> None"
proof (induction cfg arbitrary: this)
  case Nil
  then show ?case by simp
next
  case (Cons e cfg)
  obtain utm columns where e: "e = (utm, columns)" by (cases e)
  have "priv_undefinedParameterErroMessage (utmStep U P e this) k \<noteq> None \<and>
      priv_validationErrorMessage (utmStep U P e this) k \<noteq> None"
    using Cons.prems by (simp add: e utmStep_apply reported_defined)
  then show ?case
    using Cons.IH [of "utmStep U P e this"] by simp
qed

lemma GA_messages_defined:
  assumes "k \<in> fst ` set cfg - {''__proto__''}"
  shows "priv_undefinedParameterErroMessage (GA U P this0 row cfg separators rules) k \<noteq> None \<and>
     priv_validationErrorMessage (GA U P this0 row cfg separators rules) k \<noteq> None"
proof -
  let ?s0 = "start this0 row cfg separators rules"
  have "priv_undefinedParameterErroMessage ?s0 k \<noteq> None \<and> priv_validationErrorMessage ?s0 k \<noteq> None"
    using assms by (simp add: start_messages)
  then show ?thesis
    using fold_utmStep_messages_defined [of ?s0 k U P cfg]
    by (simp add: GA_unfold buildUrl_apply)
qed

lemma GA_keys:
  "fst ` set (priv_utms (GA U P this0 row cfg separators rules)) = fst ` set cfg - {''__proto__''}"
  by (simp add: GA_unfold buildUrl_apply fold_utmStep_keys start_frame)

lemma errorMessageAtUtm_total:
  "priv_undefinedParameterErroMessage this k \<noteq> None \<and> priv_validationErrorMessage this k \<noteq> None \<Longrightarrow>
   \<exists>m. errorMessageAtUtm P this k = Inr m"
  by (auto simp: errorMessageAtUtm_def pushSliced_def get_def)

lemma fillUtms_total:
  "\<forall>k \<in> fst ` set kvs. k \<noteq> ''__proto__'' \<and> priv_undefinedParameterErroMessage this k \<noteq> None \<and>
      priv_validationErrorMessage this k \<noteq> None \<Longrightarrow>
   \<exists>out'. fillUtms P this kvs out = Inr out' \<and> fst ` set out' = fst ` set out \<union> fst ` set kvs"
proof (induction kvs arbitrary: out)
  case Nil
  show ?case by simp
next
  case (Cons e kvs)
  obtain utm v where e: "e = (utm, v)" by (cases e)
  have rest: "\<forall>k \<in> fst ` set kvs. k \<noteq> ''__proto__'' \<and>
      priv_undefinedParameterErroMessage this k \<noteq> None \<and>
      priv_validationErrorMessage this k \<noteq> None"
    using Cons.prems by simp
  have np: "utm \<noteq> ''__proto__''"
    using Cons.prems by (simp add: e)
  obtain m where m: "errorMessageAtUtm P this utm = Inr m"
    using Cons.prems errorMessageAtUtm_total [of this utm P] by (auto simp: e)
  have keys: "fst ` set (assign out utm x) = insert utm (fst ` set out)" for x
    using np by (simp add: keys_assign)
  show ?case
  proof (cases "hasErrorAtUtm P this utm")
    case True
    obtain out' where "fillUtms P this kvs (assign out utm m) = Inr out'"
      and "fst ` set out' = fst ` set (assign out utm m) \<union> fst ` set kvs"
      using Cons.IH [OF rest, of "assign out utm m"] by blast
    then show ?thesis
      using True by (auto simp: e m keys)
  next
    case False
    obtain out' where "fillUtms P this kvs (assign out utm v) = Inr out'"
      and "fst ` set out' = fst ` set (assign out utm v) \<union> fst ` set kvs"
      using Cons.IH [OF rest, of "assign out utm v"] by blast
    then show ?thesis
      using False by (auto simp: e keys)
  qed
qed

lemma buildedFields_total:
  "\<exists>r. buildedFields P (GA U P this0 row cfg separators rules) = Inr r \<and>
     fst ` set (utms r) = fst ` set cfg - {''__proto__''} \<and>
     url_ga r = Some (if hasAnyErrorAtUtms P (GA U P this0 row cfg separators rules)
                      then correctionSentinel
                      else composedUrl P row (priv_utms (GA U P this0 row cfg separators rules)))"
proof -
  let ?ga = "GA U P this0 row cfg separators rules"
  have "\<forall>k \<in> fst ` set (priv_utms ?ga). k \<noteq> ''__proto__'' \<and>
      priv_undefinedParameterErroMessage ?ga k \<noteq> None \<and>
      priv_validationErrorMessage ?ga k \<noteq> None"
    using GA_messages_defined [of _ cfg U P this0 row separators rules]
    by (simp only: GA_keys) blast
  then have "\<exists>out. fillUtms P ?ga (priv_utms ?ga) [] = Inr out \<and>
      fst ` set out = fst ` set [] \<union> fst ` set (priv_utms ?ga)"
    using fillUtms_total [of "priv_utms ?ga" ?ga P "[]"] by simp
  then obtain out where out: "fillUtms P ?ga (priv_utms ?ga) [] = Inr out"
    and keys: "fst ` set out = fst ` set [] \<union> fst ` set (priv_utms ?ga)"
    by (elim exE conjE)
  have "fst ` set out = fst ` set cfg - {''__proto__''}"
    using keys by (simp add: GA_keys)
  then show ?thesis
    by (simp add: buildedFields_def out GA_url_any)
qed

section \<open>Validators that agree on present values, permuted configs, and the object at entry\<close>



lemma permuted_config:
  assumes "distinct (map fst cfg)" and "mset cfg' = mset cfg"
  shows "distinct (map fst cfg')" and "set cfg' = set cfg"
proof -
  have "mset (map fst cfg') = mset (map fst cfg)"
    using assms(2) by (metis mset_map)
  then show "distinct (map fst cfg')"
    using assms(1) by (metis mset_eq_imp_distinct_iff)
  show "set cfg' = set cfg"
    using assms(2) by (rule mset_eq_setD)
qed

lemma map_of_mapped_cong:
  assumes "distinct (map fst cfg)" and "distinct (map fst cfg')" and "set cfg' = set cfg"
  shows "map_of (map (\<lambda>(k, v). (k, f v)) cfg') = map_of (map (\<lambda>(k, v). (k, f v)) cfg)"
proof -
  have "distinct (map fst (map (\<lambda>(k, v). (k, f v)) cfg))"
    and "distinct (map fst (map (\<lambda>(k, v). (k, f v)) cfg'))"
    using assms(1,2) by (simp_all add: comp_def split_def)
  moreover have "set (map (\<lambda>(k, v). (k, f v)) cfg') = set (map (\<lambda>(k, v). (k, f v)) cfg)"
    using assms(3) by simp
  ultimately show ?thesis
    by (simp add: map_of_inject_set)
qed

lemma set_kept_cong: "set cfg' = set cfg \<Longrightarrow> set (kept cfg') = set (kept cfg)"
  by (simp add: kept_def)

lemma start_independent:
  "start this0' row cfg separators rules =
     (start this0 row cfg separators rules)\<lparr>url := url this0'\<rparr>"
proof -
  have step: "initUtm k (s\<lparr>url := u\<rparr>) = (initUtm k s)\<lparr>url := u\<rparr>" for k u and s :: "'a GA"
    by (simp add: initUtm_def)
  have "fold initUtm ks (s\<lparr>url := u\<rparr>) = (fold initUtm ks s)\<lparr>url := u\<rparr>" for ks u and s :: "'a GA"
    by (induction ks arbitrary: s) (simp_all add: step)
  moreover have "reset (super this0' row cfg separators rules) =
      (reset (super this0 row cfg separators rules))\<lparr>url := url this0'\<rparr>"
    by (simp add: reset_def super_def)
  ultimately show ?thesis
    by (simp add: start_def)
qed

lemma fold_utmStep_url:
  "fold (utmStep U P) cfg (s\<lparr>url := u\<rparr>) = (fold (utmStep U P) cfg s)\<lparr>url := u\<rparr>"
proof (induction cfg arbitrary: s)
  case Nil
  show ?case by simp
next
  case (Cons e cfg)
  obtain utm columns where e: "e = (utm, columns)" by (cases e)
  have "utmStep U P e (s\<lparr>url := u\<rparr>) = (utmStep U P e s)\<lparr>url := u\<rparr>"
    by (simp add: e utmStep_apply)
  then show ?case
    by (simp add: Cons.IH)
qed

lemma GA_independent:
  "GA U P this0' row cfg separators rules = GA U P this0 row cfg separators rules"
  by (simp add: GA_unfold start_independent [of this0' row cfg separators rules this0]
      fold_utmStep_url buildUrl_apply)

section \<open>Facts about error texts and composed values\<close>






section \<open>The claims\<close>






















text \<open>
  Claim C8. For a config and any permutation of its entries, every parameter has the same
  entry in \<open>buildedFields.utms\<close>, the same composed value in the object and the same error
  state; the keys of \<open>utms\<close> and the pairs of the composed URL follow the order of the
  config that was given (the key \<open>__proto__\<close>, which gets no entry from either config, left
  out).
\<close>

theorem config_order_only_orders_url:
  assumes "distinct (map fst cfg)" and "mset cfg' = mset cfg"
  shows "\<exists>r r'. buildedFields P (GA U P this0 row cfg separators rules) = Inr r \<and>
     buildedFields P (GA U P this0 row cfg' separators rules) = Inr r' \<and>
     (\<forall>p. map_of (utms r') p = map_of (utms r) p) \<and>
     (\<forall>p. map_of (priv_utms (GA U P this0 row cfg' separators rules)) p =
          map_of (priv_utms (GA U P this0 row cfg separators rules)) p) \<and>
     (\<forall>p. hasErrorAtUtm P (GA U P this0 row cfg' separators rules) p =
          hasErrorAtUtm P (GA U P this0 row cfg separators rules) p) \<and>
     map fst (utms r) = map fst (kept cfg) \<and> map fst (utms r') = map fst (kept cfg') \<and>
     url_ga r = Some (if hasAnyErrorAtUtms P (GA U P this0 row cfg separators rules)
        then correctionSentinel
        else toStr (get P row ''url'') @ ''?'' @
          butlast (pairs (map (\<lambda>(p, columns). (p, composedValue U P row separators columns))
            (kept cfg)))) \<and>
     url_ga r' = Some (if hasAnyErrorAtUtms P (GA U P this0 row cfg separators rules)
        then correctionSentinel
        else toStr (get P row ''url'') @ ''?'' @
          butlast (pairs (map (\<lambda>(p, columns). (p, composedValue U P row separators columns))
            (kept cfg'))))"
proof -
  let ?ga = "GA U P this0 row cfg separators rules"
  let ?ga' = "GA U P this0 row cfg' separators rules"
  let ?r = "expected U P row cfg separators rules"
  let ?r' = "expected U P row cfg' separators rules"
  note d = assms(1)
  note d' = permuted_config(1) [OF assms]
  note same = permuted_config(2) [OF assms]
  note k = distinct_kept [OF d]
  note k' = distinct_kept [OF d']
  note ksame = set_kept_cong [OF same]
  have r: "buildedFields P ?ga = Inr ?r" and r': "buildedFields P ?ga' = Inr ?r'"
    by (rule buildedFields_GA [OF d], rule buildedFields_GA [OF d'])
  have fields: "\<forall>p. map_of (utms ?r') p = map_of (utms ?r) p"
    by (simp add: expected_def map_of_mapped_cong [OF k k' ksame])
  have composed: "\<forall>p. map_of (priv_utms ?ga') p = map_of (priv_utms ?ga) p"
    by (simp add: GA_utms [OF d] GA_utms [OF d'] composedUtms_def map_of_mapped_cong [OF k k' ksame])
  have flags: "hasErrorAtUtm P ?ga' p = hasErrorAtUtm P ?ga p" for p
  proof (cases "p \<in> fst ` set cfg \<and> p \<noteq> ''__proto__''")
    case True
    then obtain columns where in_cfg: "(p, columns) \<in> set cfg" by auto
    then have "map_of cfg p = Some columns" and "map_of cfg' p = Some columns"
      using d d' same by simp_all
    then show ?thesis
      using True by (simp add: GA_hasErrorAtUtm [OF d] GA_hasErrorAtUtm [OF d'])
  next
    case False
    then have a: "p \<notin> fst ` set cfg \<or> p = ''__proto__''" by blast
    then have a': "p \<notin> fst ` set cfg' \<or> p = ''__proto__''" using same by simp
    show ?thesis
      by (simp only: GA_hasErrorAtUtm_no_entry [OF d a] GA_hasErrorAtUtm_no_entry [OF d' a'])
  qed
  have any: "anyError U P row rules cfg' = anyError U P row rules cfg"
    by (simp add: anyError_def list_ex_iff ksame)
  have keys: "map fst (utms ?r) = map fst (kept cfg)"
    and keys': "map fst (utms ?r') = map fst (kept cfg')"
    by (simp_all add: expected_def comp_def split_def)
  have u: "url_ga ?r = Some (if hasAnyErrorAtUtms P ?ga then correctionSentinel
        else toStr (get P row ''url'') @ ''?'' @
          butlast (pairs (map (\<lambda>(p, columns). (p, composedValue U P row separators columns))
            (kept cfg))))"
    by (simp add: expected_def GA_hasAnyErrorAtUtms [OF d] composedUrl_def composedUtms_def)
  have u': "url_ga ?r' = Some (if hasAnyErrorAtUtms P ?ga then correctionSentinel
        else toStr (get P row ''url'') @ ''?'' @
          butlast (pairs (map (\<lambda>(p, columns). (p, composedValue U P row separators columns))
            (kept cfg'))))"
    by (simp add: expected_def GA_hasAnyErrorAtUtms [OF d] any composedUrl_def composedUtms_def)
  show ?thesis
  proof (intro exI conjI allI)
    show "buildedFields P ?ga = Inr ?r" by (rule r)
    show "buildedFields P ?ga' = Inr ?r'" by (rule r')
    show "map_of (utms ?r') p = map_of (utms ?r) p" for p using fields by simp
    show "map_of (priv_utms ?ga') p = map_of (priv_utms ?ga) p" for p using composed by simp
    show "hasErrorAtUtm P ?ga' p = hasErrorAtUtm P ?ga p" for p by (rule flags)
    show "map fst (utms ?r) = map fst (kept cfg)" by (rule keys)
    show "map fst (utms ?r') = map fst (kept cfg')" by (rule keys')
    show "url_ga ?r = Some (if hasAnyErrorAtUtms P ?ga then correctionSentinel
        else toStr (get P row ''url'') @ ''?'' @
          butlast (pairs (map (\<lambda>(p, columns). (p, composedValue U P row separators columns))
            (kept cfg))))"
      by (rule u)
    show "url_ga ?r' = Some (if hasAnyErrorAtUtms P ?ga then correctionSentinel
        else toStr (get P row ''url'') @ ''?'' @
          butlast (pairs (map (\<lambda>(p, columns). (p, composedValue U P row separators columns))
            (kept cfg'))))"
      by (rule u')
  qed
qed

theorem config_order_only_orders_url_witness:
  "\<exists>r r'. exampleBuild scenarioRow scenarioConfig noRules = Inr r \<and>
     exampleBuild scenarioRow scenarioConfigSwapped noRules = Inr r' \<and>
     (\<forall>p. map_of (utms r') p = map_of (utms r) p) \<and>
     map fst (utms r) = [''utm_source'', ''utm_medium''] \<and>
     map fst (utms r') = [''utm_medium'', ''utm_source''] \<and>
     url_ga r = Some ''http://x.com?utm_source=google&utm_medium=cpc'' \<and>
     url_ga r' = Some ''http://x.com?utm_medium=cpc&utm_source=google''"
proof -
  let ?ga = "GA exampleUtils nodePrototype freshObject scenarioRow scenarioConfig (''_'', ''-'') noRules"
  let ?ga' = "GA exampleUtils nodePrototype freshObject scenarioRow scenarioConfigSwapped (''_'', ''-'')
      noRules"
  have d: "distinct (map fst scenarioConfig)"
    by code_simp
  have m: "mset scenarioConfigSwapped = mset scenarioConfig"
    by (simp add: scenarioConfigSwapped_def scenarioConfig_def)
  have k: "map fst (kept scenarioConfig) = [''utm_source'', ''utm_medium'']"
    and k': "map fst (kept scenarioConfigSwapped) = [''utm_medium'', ''utm_source'']"
    by code_simp+
  have v: "(if hasAnyErrorAtUtms nodePrototype ?ga
        then correctionSentinel
        else toStr (get nodePrototype scenarioRow ''url'') @ ''?'' @
          butlast (pairs (map (\<lambda>(p, columns).
              (p, composedValue exampleUtils nodePrototype scenarioRow (''_'', ''-'') columns))
            (kept scenarioConfig)))) = ''http://x.com?utm_source=google&utm_medium=cpc''"
    by code_simp
  have v': "(if hasAnyErrorAtUtms nodePrototype ?ga
        then correctionSentinel
        else toStr (get nodePrototype scenarioRow ''url'') @ ''?'' @
          butlast (pairs (map (\<lambda>(p, columns).
              (p, composedValue exampleUtils nodePrototype scenarioRow (''_'', ''-'') columns))
            (kept scenarioConfigSwapped)))) = ''http://x.com?utm_medium=cpc&utm_source=google''"
    by code_simp
  obtain r r' where a: "buildedFields nodePrototype ?ga = Inr r"
    and b: "buildedFields nodePrototype ?ga' = Inr r'"
    and c: "\<forall>p. map_of (utms r') p = map_of (utms r) p"
    and o: "map fst (utms r) = [''utm_source'', ''utm_medium'']"
    and o': "map fst (utms r') = [''utm_medium'', ''utm_source'']"
    and e: "url_ga r = Some ''http://x.com?utm_source=google&utm_medium=cpc''"
    and f: "url_ga r' = Some ''http://x.com?utm_medium=cpc&utm_source=google''"
    using config_order_only_orders_url [OF d m, of nodePrototype exampleUtils freshObject
        scenarioRow "(''_'', ''-'')" noRules]
    unfolding v v' k k' by (elim exE conjE)
  show ?thesis
    unfolding exampleBuild_def exampleGA_def
  proof (intro exI conjI)
    show "buildedFields nodePrototype ?ga = Inr r" by (rule a)
    show "buildedFields nodePrototype ?ga' = Inr r'" by (rule b)
    show "\<forall>p. map_of (utms r') p = map_of (utms r) p" by (rule c)
    show "map fst (utms r) = [''utm_source'', ''utm_medium'']" by (rule o)
    show "map fst (utms r') = [''utm_medium'', ''utm_source'']" by (rule o')
    show "url_ga r = Some ''http://x.com?utm_source=google&utm_medium=cpc''" by (rule e)
    show "url_ga r' = Some ''http://x.com?utm_medium=cpc&utm_source=google''" by (rule f)
  qed
qed

text \<open>
  Claim C9. Two builds, one after the other, from the same row, config, separators and
  rules give results that are equal in both fields. The second build runs in the world that
  the first one left (the line it wrote to the console included) and on an object of its
  own, of which nothing is assumed: every field that the builder reads is written by the
  constructor first, the builder keeps nothing outside the object, and it leaves
  \<open>Object.prototype\<close> as it found it. Both reads of \<open>buildedFields\<close> return.
\<close>

theorem build_is_deterministic:
  assumes "new_GA U this0 row cfg separators rules w = (ga, w')"
    and "new_GA U this0' row cfg separators rules w' = (ga', w'')"
  shows "\<exists>r. buildedFields (objectPrototype w') ga = Inr r \<and>
       buildedFields (objectPrototype w'') ga' = Inr r \<and>
       ga' = ga \<and> objectPrototype w'' = objectPrototype w \<and>
       console w'' = console w @ [row, row]"
proof -
  let ?P = "objectPrototype w"
  have first: "ga = GA U ?P this0 row cfg separators rules"
    and world: "w' = w\<lparr>console := console w @ [row]\<rparr>"
    using assms(1) by (simp_all add: new_GA_GA)
  have second: "ga' = GA U ?P this0' row cfg separators rules"
    and world': "w'' = w\<lparr>console := console w @ [row, row]\<rparr>"
    using assms(2) by (simp_all add: new_GA_GA world)
  have same: "ga' = ga"
    by (simp only: first second GA_independent [of U ?P this0' row cfg separators rules this0])
  obtain r where r: "buildedFields ?P (GA U ?P this0 row cfg separators rules) = Inr r"
    using buildedFields_total [of ?P U this0 row cfg separators rules] by (elim exE conjE)
  show ?thesis
  proof (intro exI [of _ r] conjI)
    show "buildedFields (objectPrototype w') ga = Inr r"
      using r by (simp add: first world)
    show "buildedFields (objectPrototype w'') ga' = Inr r"
      using r by (simp add: same first world')
    show "ga' = ga" by (rule same)
    show "objectPrototype w'' = objectPrototype w" by (simp add: world')
    show "console w'' = console w @ [row, row]" by (simp add: world')
  qed
qed

theorem build_is_deterministic_witness:
  "\<exists>r. buildedFields
          (objectPrototype (snd (new_GA exampleUtils freshObject scenarioRow scenarioConfig
             (''_'', ''-'') noRules nodeWorld)))
          (fst (new_GA exampleUtils freshObject scenarioRow scenarioConfig
             (''_'', ''-'') noRules nodeWorld)) = Inr r \<and>
     buildedFields
          (objectPrototype (snd (new_GA exampleUtils usedObject scenarioRow scenarioConfig
             (''_'', ''-'') noRules
             (snd (new_GA exampleUtils freshObject scenarioRow scenarioConfig
                (''_'', ''-'') noRules nodeWorld)))))
          (fst (new_GA exampleUtils usedObject scenarioRow scenarioConfig
             (''_'', ''-'') noRules
             (snd (new_GA exampleUtils freshObject scenarioRow scenarioConfig
                (''_'', ''-'') noRules nodeWorld)))) = Inr r \<and>
     utms r = [(''utm_source'', ''google''), (''utm_medium'', ''cpc'')] \<and>
     url_ga r = Some ''http://x.com?utm_source=google&utm_medium=cpc'' \<and>
     console (snd (new_GA exampleUtils usedObject scenarioRow scenarioConfig
             (''_'', ''-'') noRules
             (snd (new_GA exampleUtils freshObject scenarioRow scenarioConfig
                (''_'', ''-'') noRules nodeWorld)))) = [scenarioRow, scenarioRow]"
proof -
  let ?first = "new_GA exampleUtils freshObject scenarioRow scenarioConfig (''_'', ''-'') noRules
      nodeWorld"
  let ?second = "new_GA exampleUtils usedObject scenarioRow scenarioConfig (''_'', ''-'') noRules
      (snd ?first)"
  have one: "?first = (fst ?first, snd ?first)" and two: "?second = (fst ?second, snd ?second)"
    by simp_all
  have v: "buildedFields nodePrototype (exampleGA scenarioRow scenarioConfig noRules) =
      Inr \<lparr>utms = [(''utm_source'', ''google''), (''utm_medium'', ''cpc'')],
           url_ga = Some ''http://x.com?utm_source=google&utm_medium=cpc''\<rparr>"
    by code_simp
  have g: "fst ?first = exampleGA scenarioRow scenarioConfig noRules"
    and p: "objectPrototype (snd ?first) = nodePrototype"
    by (simp_all add: new_GA_GA exampleGA_def nodeWorld_def)
  obtain r where a: "buildedFields (objectPrototype (snd ?first)) (fst ?first) = Inr r"
    and b: "buildedFields (objectPrototype (snd ?second)) (fst ?second) = Inr r"
    and c: "console (snd ?second) = console nodeWorld @ [scenarioRow, scenarioRow]"
    using build_is_deterministic [OF one two] by (elim exE conjE)
  have r: "r = \<lparr>utms = [(''utm_source'', ''google''), (''utm_medium'', ''cpc'')],
           url_ga = Some ''http://x.com?utm_source=google&utm_medium=cpc''\<rparr>"
    using a v by (simp only: g p sum.inject)
  show ?thesis
  proof (intro exI [of _ r] conjI)
    show "buildedFields (objectPrototype (snd ?first)) (fst ?first) = Inr r" by (rule a)
    show "buildedFields (objectPrototype (snd ?second)) (fst ?second) = Inr r" by (rule b)
    show "utms r = [(''utm_source'', ''google''), (''utm_medium'', ''cpc'')]"
      by (simp add: r)
    show "url_ga r = Some ''http://x.com?utm_source=google&utm_medium=cpc''"
      by (simp add: r)
    show "console (snd ?second) = [scenarioRow, scenarioRow]"
      using c by (simp add: nodeWorld_def)
  qed
qed




end
